theory Spec2Isabelle
  imports Main
begin

section \<open>Object identifiers (\<open>ophelia/utils/obj_utils.py\<close>)\<close>

text \<open>
  \<open>get_id\<close> reads the clock once: \<open>int(time.time())\<close>. The model takes that reading,
  the UNIX time in whole seconds, as its first argument. Python's integers are
  unbounded and \<open>%\<close> with a positive modulus is the floor modulus, as \<open>mod\<close> on
  \<open>int\<close> is.
\<close>

definition get_id :: "int \<Rightarrow> int \<Rightarrow> int \<Rightarrow> int" where
  "get_id now type_identifier counter =
     (let identifier = type_identifier;
          date = now mod 100000000;
          count = counter + 1;
          check = (identifier * date * count) mod 10
      in date * 1000000 + identifier * 100000 + count * 10 + check)"

text \<open>Reading the four fields of the layout \<open>TTTTTTTTinnnnC\<close> back off an identifier.\<close>

definition id_check :: "int \<Rightarrow> int" where
  "id_check r = r mod 10"

definition id_count :: "int \<Rightarrow> int" where
  "id_count r = (r div 10) mod 10000"

definition id_type :: "int \<Rightarrow> int" where
  "id_type r = (r div 100000) mod 10"

definition id_date :: "int \<Rightarrow> int" where
  "id_date r = r div 1000000"

section \<open>Message buffering (\<open>ophelia/voicerooms/message_buffer.py\<close>)\<close>

subsection \<open>What the module imports\<close>

text \<open>
  A Python \<open>str\<close> is modelled as a \<open>string\<close>, one \<open>char\<close> standing for one code
  point; nothing below depends on the size of the alphabet.

  The module takes its text helpers from \<open>ophelia.utils.text_utils\<close>, its display
  templates from \<open>ophelia.output.output.disp_str\<close> and the attributes of messages and
  channels from the discord library. They are parameters of the model, gathered in the
  record \<open>display\<close>: \<open>strftime\<close> renders a time with the format
  \<open>%Y-%m-%d %H:%M:%S\<close>, \<open>channel_name\<close> reads \<open>channel.name\<close>, and each
  \<open>voicerooms_...\<close> field is \<open>disp_str\<close> of that key followed by \<open>.format\<close> on the
  arguments the source passes. A time is a number of seconds.
\<close>

record 'c display =
  strftime :: "int \<Rightarrow> string"
  channel_name :: "'c \<Rightarrow> string"
  escape_formatting :: "string \<Rightarrow> string"
  quotify :: "string \<Rightarrow> string"
  voicerooms_log_header :: "string \<Rightarrow> string \<Rightarrow> string \<Rightarrow> string \<Rightarrow> int \<Rightarrow> string"
  voicerooms_log_attachments :: "string \<Rightarrow> string"
  voicerooms_log_tail :: "string \<Rightarrow> string"
  voicerooms_raw_header :: "string \<Rightarrow> string \<Rightarrow> string \<Rightarrow> string"

text \<open>
  The attributes of a discord \<open>Message\<close> that \<open>format_message\<close> reads; an attachment
  is represented by its \<open>filename\<close>.
\<close>

record 'c message =
  created_at :: int
  channel :: 'c
  author_name :: string
  author_discriminator :: string
  author_id :: int
  attachments :: "string list"
  content :: string
  clean_content :: string

text \<open>
  \<open>send_message\<close> (from \<open>ophelia.output.output\<close>) acts on the world outside the
  buffer, of type \<open>'w\<close>. A call either returns a value (\<open>Inr\<close>), which \<open>dump\<close>
  discards, or raises an exception (\<open>Inl\<close>). \<open>group_strings\<close> is the grouping helper of
  \<open>text_utils\<close>, and \<open>BUFFER_SIZE\<close> is the module constant read from
  \<open>settings.voiceroom_buffer_size\<close>.
\<close>

record ('c, 'w, 'e, 'r) services =
  send_message :: "'c \<Rightarrow> string \<Rightarrow> 'w \<Rightarrow> ('e + 'r) \<times> 'w"
  group_strings :: "string list \<Rightarrow> string list"
  BUFFER_SIZE :: int

definition LOG_WRAP :: nat where
  "LOG_WRAP = 1500"

text \<open>Python's \<open>sep.join(xs)\<close>.\<close>

fun join :: "string \<Rightarrow> string list \<Rightarrow> string" where
  "join sep [] = []"
| "join sep [x] = x"
| "join sep (x # y # ys) = x @ sep @ join sep (y # ys)"

text \<open>
  Modelled from the spec: \<open>string_wrap\<close> of \<open>ophelia.utils.text_utils\<close>, which is not
  among the sources. The spec gives its contract, "split one string into ordered chunks
  each \<open>\<le> max_width\<close> characters", and expects a text shorter than the width to stay
  in one chunk and a text of length \<open>2 * max_width - 1\<close> to give two chunks, the first
  of length \<open>max_width\<close>: the text is cut every \<open>max_width\<close> characters. A width of 0
  admits no such split of a non-empty text; the text is then returned whole.
\<close>

function string_wrap :: "string \<Rightarrow> nat \<Rightarrow> string list" where
  "string_wrap s max_width =
     (if length s \<le> max_width \<or> max_width = 0 then [s]
      else take max_width s # string_wrap (drop max_width s) max_width)"
  by pat_completeness auto
termination
  by (relation "measure (\<lambda>(s, max_width). length s)") auto

declare string_wrap.simps [simp del]

subsection \<open>The buffer\<close>

text \<open>
  The slots of a \<open>MessageBuffer\<close>. \<open>message_buffer\<close> is a Python \<open>dict\<close>, which
  iterates in insertion order: an association list, the keys compared with the
  equality of channels. The slot \<open>lock\<close> is not part of the state: the model runs one
  call at a time to its end, so the lock is free whenever a call enters a critical
  section and is released when the section is left, also by an exception.
\<close>

record 'c buffer_state =
  message_buffer :: "('c \<times> string list) list"
  current_size :: int

definition MessageBuffer_init :: "'c buffer_state" where
  "MessageBuffer_init = \<lparr>message_buffer = [], current_size = 0\<rparr>"

definition format_message :: "('c, 'z) display_scheme \<Rightarrow> ('c, 'y) message_scheme \<Rightarrow> string list" where
  "format_message D message =
     (let log_list = [];
          log_list = log_list @
            [voicerooms_log_header D
               (strftime D (created_at message))
               (channel_name D (channel message))
               (escape_formatting D (author_name message))
               (author_discriminator message)
               (author_id message)];
          log_list =
            (if attachments message \<noteq> [] then
               log_list @
                 [voicerooms_log_attachments D
                    (join '', '' (map (escape_formatting D) (attachments message)))]
             else log_list);
          log_list =
            (if content message \<noteq> [] then
               log_list @
                 map (voicerooms_log_tail D)
                   (string_wrap (quotify D (escape_formatting D (clean_content message))) LOG_WRAP)
             else log_list)
      in log_list)"

text \<open>
  The calls made on the transport, in order: \<open>(channel, text)\<close> for each
  \<open>send_message(channel=channel, text=content)\<close> that was started.
\<close>

type_synonym 'c trace = "('c \<times> string) list"

text \<open>
  The inner loop of \<open>dump\<close>: \<open>for content in compacted_list: await send_message(...)\<close>.
  An exception leaves the loop at once.
\<close>

fun send_each ::
  "('c, 'w, 'e, 'r, 'z) services_scheme \<Rightarrow> 'c \<Rightarrow> string list \<Rightarrow> 'w \<Rightarrow> ('e + unit) \<times> 'c trace \<times> 'w" where
  "send_each T ch [] w = (Inr (), [], w)"
| "send_each T ch (text # rest) w =
     (case send_message T ch text w of
        (Inl e, w') \<Rightarrow> (Inl e, [(ch, text)], w')
      | (Inr r, w') \<Rightarrow>
          (case send_each T ch rest w' of (res, tr, w'') \<Rightarrow> (res, (ch, text) # tr, w'')))"

text \<open>The outer loop: \<open>for channel, content_list in self.message_buffer.items()\<close>.\<close>

fun dump_items ::
  "('c, 'w, 'e, 'r, 'z) services_scheme \<Rightarrow> ('c \<times> string list) list \<Rightarrow> 'w \<Rightarrow> ('e + unit) \<times> 'c trace \<times> 'w" where
  "dump_items T [] w = (Inr (), [], w)"
| "dump_items T ((ch, content_list) # items) w =
     (let compacted_list = group_strings T content_list in
      case send_each T ch compacted_list w of
        (Inl e, tr, w') \<Rightarrow> (Inl e, tr, w')
      | (Inr u, tr, w') \<Rightarrow>
          (case dump_items T items w' of (res, tr', w'') \<Rightarrow> (res, tr @ tr', w'')))"

text \<open>
  \<open>dump\<close>: the two assignments after the loop run only when the loop ended without
  an exception; otherwise the exception leaves \<open>dump\<close> with the slots as they were.
\<close>

definition dump ::
  "('c, 'w, 'e, 'r, 'z) services_scheme \<Rightarrow> 'w \<Rightarrow> 'c buffer_state
     \<Rightarrow> ('e + unit) \<times> 'c trace \<times> 'w \<times> 'c buffer_state" where
  "dump T w self =
     (case dump_items T (message_buffer self) w of
        (Inl e, tr, w') \<Rightarrow> (Inl e, tr, w', self)
      | (Inr u, tr, w') \<Rightarrow>
          (Inr (), tr, w', self\<lparr>current_size := 0, message_buffer := []\<rparr>))"

text \<open>\<open>d.setdefault(key, []).extend(lines)\<close> on the dictionary \<open>d\<close>.\<close>

fun setdefault_extend :: "'c \<Rightarrow> string list \<Rightarrow> ('c \<times> string list) list \<Rightarrow> ('c \<times> string list) list" where
  "setdefault_extend key lines [] = [(key, [] @ lines)]"
| "setdefault_extend key lines ((k, v) # d) =
     (if k = key then (k, v @ lines) # d else (k, v) # setdefault_extend key lines d)"

text \<open>The critical section of \<open>log_message\<close> and of \<open>log_system_msg\<close>.\<close>

definition append_lines :: "'c \<Rightarrow> string list \<Rightarrow> 'c buffer_state \<Rightarrow> 'c buffer_state" where
  "append_lines ch lines self =
     self\<lparr>message_buffer := setdefault_extend ch lines (message_buffer self),
          current_size := current_size self + 1\<rparr>"

definition log_message ::
  "('c, 'y) display_scheme \<Rightarrow> ('c, 'w, 'e, 'r, 'z) services_scheme \<Rightarrow> 'c \<Rightarrow> ('c, 'x) message_scheme
     \<Rightarrow> 'w \<Rightarrow> 'c buffer_state \<Rightarrow> ('e + unit) \<times> 'c trace \<times> 'w \<times> 'c buffer_state" where
  "log_message D T ch message w self =
     (let self = append_lines ch (format_message D message) self in
      if current_size self \<ge> BUFFER_SIZE T then dump T w self
      else (Inr (), [], w, self))"

text \<open>\<open>now\<close> is the reading of \<open>datetime.utcnow()\<close>.\<close>

definition log_system_msg ::
  "('c, 'y) display_scheme \<Rightarrow> ('c, 'w, 'e, 'r, 'z) services_scheme \<Rightarrow> int \<Rightarrow> 'c \<Rightarrow> 'c \<Rightarrow> string
     \<Rightarrow> 'w \<Rightarrow> 'c buffer_state \<Rightarrow> ('e + unit) \<times> 'c trace \<times> 'w \<times> 'c buffer_state" where
  "log_system_msg D T now log_channel text_channel text w self =
     (let self = append_lines log_channel
            [voicerooms_raw_header D (strftime D now) (channel_name D text_channel) text] self in
      if current_size self \<ge> BUFFER_SIZE T then dump T w self
      else (Inr (), [], w, self))"

subsection \<open>Histories of calls\<close>

text \<open>
  The three public operations as one type of call, and a history: the calls made on
  one buffer, one after the other. Each call starts from the slots and the world the
  previous one left, also when the previous one raised: the caller of a logging
  operation is an event handler, and the next event is handled all the same.
\<close>

datatype 'c call =
  Log_message 'c "'c message"
| Log_system_msg int 'c 'c string
| Dump

fun exec ::
  "('c, 'y) display_scheme \<Rightarrow> ('c, 'w, 'e, 'r, 'z) services_scheme \<Rightarrow> 'c call
     \<Rightarrow> 'w \<Rightarrow> 'c buffer_state \<Rightarrow> ('e + unit) \<times> 'c trace \<times> 'w \<times> 'c buffer_state" where
  "exec D T (Log_message ch message) w self = log_message D T ch message w self"
| "exec D T (Log_system_msg now log_channel text_channel text) w self =
     log_system_msg D T now log_channel text_channel text w self"
| "exec D T Dump w self = dump T w self"

record ('c, 'w, 'e) step =
  st_call :: "'c call"
  st_before :: "'c buffer_state"
  st_result :: "'e + unit"
  st_trace :: "'c trace"
  st_world :: 'w
  st_after :: "'c buffer_state"

fun run ::
  "('c, 'y) display_scheme \<Rightarrow> ('c, 'w, 'e, 'r, 'z) services_scheme \<Rightarrow> 'c call list
     \<Rightarrow> 'w \<Rightarrow> 'c buffer_state \<Rightarrow> ('c, 'w, 'e) step list" where
  "run D T [] w self = []"
| "run D T (c # cs) w self =
     (case exec D T c w self of
        (res, tr, w', self') \<Rightarrow>
          \<lparr>st_call = c, st_before = self, st_result = res, st_trace = tr,
             st_world = w', st_after = self'\<rparr>
            # run D T cs w' self')"

definition final_state :: "'c buffer_state \<Rightarrow> ('c, 'w, 'e) step list \<Rightarrow> 'c buffer_state" where
  "final_state self log = (if log = [] then self else st_after (last log))"


fun is_record :: "'c call \<Rightarrow> bool" where
  "is_record (Log_message ch message) = True"
| "is_record (Log_system_msg now log_channel text_channel text) = True"
| "is_record Dump = False"


text \<open>A call flushes when it is \<open>dump\<close> or a record call that reaches the threshold.\<close>

fun flushes :: "('c, 'w, 'e, 'r, 'z) services_scheme \<Rightarrow> 'c call \<Rightarrow> 'c buffer_state \<Rightarrow> bool" where
  "flushes T Dump self = True"
| "flushes T c self = (current_size self + 1 \<ge> BUFFER_SIZE T)"

text \<open>The entry of a destination: \<open>message_buffer.get(dst, [])\<close>.\<close>

definition entry :: "'c \<Rightarrow> 'c buffer_state \<Rightarrow> string list" where
  "entry dst self = (case map_of (message_buffer self) dst of None \<Rightarrow> [] | Some v \<Rightarrow> v)"

text \<open>The texts a trace sent to one destination, in the order they were sent.\<close>

definition sent_to :: "'c \<Rightarrow> 'c trace \<Rightarrow> string list" where
  "sent_to dst tr = map snd (filter (\<lambda>(ch, text). ch = dst) tr)"

text \<open>
  The calls \<open>dump\<close> is about to make: for each destination in turn, its batches.
\<close>

definition planned :: "('c, 'w, 'e, 'r, 'z) services_scheme \<Rightarrow> ('c \<times> string list) list \<Rightarrow> 'c trace" where
  "planned T items = concat (map (\<lambda>(ch, content_list). map (Pair ch) (group_strings T content_list)) items)"

text \<open>
  The number of record calls of a history since the buffer was last cleared, that is,
  since the last call that left the dictionary empty.
\<close>

fun count_step :: "int \<Rightarrow> ('c, 'w, 'e) step \<Rightarrow> int" where
  "count_step n st =
     (if message_buffer (st_after st) = [] then 0
      else if is_record (st_call st) then n + 1 else n)"

definition records_since_clear :: "('c, 'w, 'e) step list \<Rightarrow> int" where
  "records_since_clear log = foldl count_step 0 log"



text \<open>The slots after the critical section of a record call, before any flush.\<close>

fun record_only :: "('c, 'y) display_scheme \<Rightarrow> 'c call \<Rightarrow> 'c buffer_state \<Rightarrow> 'c buffer_state" where
  "record_only D (Log_message ch message) self = append_lines ch (format_message D message) self"
| "record_only D (Log_system_msg now log_channel text_channel text) self =
     append_lines log_channel
       [voicerooms_raw_header D (strftime D now) (channel_name D text_channel) text] self"
| "record_only D Dump self = self"

text \<open>
  A list of transport calls made one after the other until one raises: the two loops
  of \<open>dump\<close> flattened.
\<close>

fun send_calls ::
  "('c, 'w, 'e, 'r, 'z) services_scheme \<Rightarrow> 'c trace \<Rightarrow> 'w \<Rightarrow> ('e + unit) \<times> 'c trace \<times> 'w" where
  "send_calls T [] w = (Inr (), [], w)"
| "send_calls T ((ch, text) # rest) w =
     (case send_message T ch text w of
        (Inl e, w') \<Rightarrow> (Inl e, [(ch, text)], w')
      | (Inr r, w') \<Rightarrow>
          (case send_calls T rest w' of (res, tr, w'') \<Rightarrow> (res, (ch, text) # tr, w'')))"


subsection \<open>Example collaborators\<close>

text \<open>
  Concrete collaborators, on which the theorems below are evaluated. Channels are
  numbers. The transport counts its calls in the world and raises on channel 13; the
  grouping puts all the lines of a destination in one batch, joined by newlines.
\<close>

definition one_batch :: "string list \<Rightarrow> string list" where
  "one_batch lines = (if lines = [] then [] else [join [CHR 0x0A] lines])"

definition example_services :: "(nat, nat, string, bool) services" where
  "example_services =
     \<lparr>send_message =
        (\<lambda>ch text w. if ch = 13 then (Inl ''Forbidden'', Suc w) else (Inr True, Suc w)),
      group_strings = one_batch,
      BUFFER_SIZE = 3\<rparr>"

text \<open>
  A display whose templates are short, and a chat message for it. The escaping puts a
  backslash before an asterisk or an underscore; the quoting prefixes \<open>> \<close>.
\<close>

definition example_display :: "nat display" where
  "example_display =
     \<lparr>strftime = (\<lambda>t. ''12:00''),
      channel_name = (\<lambda>ch. if ch = 42 then ''voice-42'' else ''general''),
      escape_formatting =
        (\<lambda>s. concat (map (\<lambda>c. if c = CHR ''*'' \<or> c = CHR ''_'' then [CHR 0x5C, c] else [c]) s)),
      quotify = (\<lambda>s. ''> '' @ s),
      voicerooms_log_header =
        (\<lambda>time channel name discrim id. time @ '' '' @ channel @ '' '' @ name @ ''#'' @ discrim),
      voicerooms_log_attachments = (\<lambda>s. ''Files: '' @ s),
      voicerooms_log_tail = (\<lambda>s. s),
      voicerooms_raw_header = (\<lambda>time channel text. time @ '' '' @ channel @ '' '' @ text)\<rparr>"

definition example_message :: "nat message" where
  "example_message =
     \<lparr>created_at = 0, channel = 42, author_name = ''ann'', author_discriminator = ''0001'',
      author_id = 5, attachments = [], content = ''hi'', clean_content = ''hi''\<rparr>"

text \<open>A history on which the threshold 3 of the example is reached by the third call.\<close>

definition example_calls :: "nat call list" where
  "example_calls =
     [Log_message 7 example_message, Log_system_msg 0 8 42 ''Room closed'',
      Log_message 7 example_message]"


text \<open>A message whose quoted text has \<open>2 * 1500 - 1\<close> characters, and one with a file only.\<close>

definition long_message :: "nat message" where
  "long_message =
     example_message\<lparr>content := replicate 2997 CHR ''x'', clean_content := replicate 2997 CHR ''x''\<rparr>"

definition file_message :: "nat message" where
  "file_message =
     example_message\<lparr>attachments := [''a_b.png'', ''c.txt''], content := [], clean_content := []\<rparr>"


text \<open>The example display with a tail template that marks each chunk.\<close>

definition marked_display :: "nat display" where
  "marked_display = example_display\<lparr>voicerooms_log_tail := (\<lambda>s. ''| '' @ s)\<rparr>"

section \<open>Properties of \<open>get_id\<close>\<close>

lemma get_id_formula:
  "get_id s t c =
     (s mod 100000000) * 1000000 + t * 100000 + (c + 1) * 10
       + (t * (s mod 100000000) * (c + 1)) mod 10"
  by (simp add: get_id_def Let_def)

lemma div_mod_unique_pos:
  "(a::int) = b * q + r \<Longrightarrow> 0 \<le> r \<Longrightarrow> r < b \<Longrightarrow> a div b = q \<and> a mod b = r"
  using int_div_pos_eq int_mod_pos_eq by blast

lemma decimal_fields:
  fixes d t n k :: int
  assumes "0 \<le> t" "t \<le> 9" "0 \<le> n" "n \<le> 9999" "0 \<le> k" "k < 10"
  shows "(d * 1000000 + t * 100000 + n * 10 + k) div 1000000 = d
       \<and> ((d * 1000000 + t * 100000 + n * 10 + k) div 100000) mod 10 = t
       \<and> ((d * 1000000 + t * 100000 + n * 10 + k) div 10) mod 10000 = n
       \<and> (d * 1000000 + t * 100000 + n * 10 + k) mod 10 = k"
proof -
  define r where "r = d * 1000000 + t * 100000 + n * 10 + k"
  have a: "r div 1000000 = d \<and> r mod 1000000 = t * 100000 + n * 10 + k"
    by (rule div_mod_unique_pos) (use assms in \<open>simp_all add: r_def\<close>)
  have b: "r div 100000 = d * 10 + t \<and> r mod 100000 = n * 10 + k"
    by (rule div_mod_unique_pos) (use assms in \<open>simp_all add: r_def\<close>)
  have c: "r div 10 = d * 100000 + t * 10000 + n \<and> r mod 10 = k"
    by (rule div_mod_unique_pos) (use assms in \<open>simp_all add: r_def\<close>)
  have b': "(d * 10 + t) div 10 = d \<and> (d * 10 + t) mod 10 = t"
    by (rule div_mod_unique_pos) (use assms in \<open>simp_all\<close>)
  have c': "(d * 100000 + t * 10000 + n) div 10000 = d * 10 + t
       \<and> (d * 100000 + t * 10000 + n) mod 10000 = n"
    by (rule div_mod_unique_pos) (use assms in \<open>simp_all\<close>)
  show ?thesis
    using a b b' c c' unfolding r_def by simp
qed

text \<open>
  C9, as stated, at a negative counter: with the clock at 0, the type tag 1 with
  counter \<open>-2\<close> and the type tag 0 with counter 9998 both satisfy the claim's side
  conditions (tag in 0..9, counter + 1 at most 9999) and receive the same identifier
  99990, whose decimal decomposition gives tag 0 and count 9999. So the fields of the
  first call cannot be recovered from its result.
\<close>

theorem get_id_negative_counter_counterexample:
  "get_id 0 1 (- 2) = 99990 \<and> get_id 0 0 9998 = 99990
     \<and> id_type (get_id 0 1 (- 2)) \<noteq> 1 \<and> id_count (get_id 0 1 (- 2)) \<noteq> - 2 + 1"
  by (simp add: get_id_def id_type_def id_count_def)

text \<open>
  C9 (amended): for every type identifier \<open>t\<close> and counter \<open>c\<close>, evaluated at UNIX time
  \<open>s\<close>, \<open>get_id\<close> returns \<open>d * 1000000 + t * 100000 + (c + 1) * 10 + k\<close> with
  \<open>d = s mod 100000000\<close> and \<open>k = (t * d * (c + 1)) mod 10\<close>; and whenever \<open>t\<close> is in
  0..9 and \<open>c + 1\<close> is in 0..9999, the decimal decomposition of the result gives back
  the timestamp \<open>d\<close>, the type tag \<open>t\<close>, the count \<open>c + 1\<close> and the check digit \<open>k\<close>.
\<close>

theorem get_id_layout:
  "get_id s t c =
     (s mod 100000000) * 1000000 + t * 100000 + (c + 1) * 10
       + (t * (s mod 100000000) * (c + 1)) mod 10
   \<and> (0 \<le> t \<and> t \<le> 9 \<and> 0 \<le> c + 1 \<and> c + 1 \<le> 9999 \<longrightarrow>
        id_date (get_id s t c) = s mod 100000000
      \<and> id_type (get_id s t c) = t
      \<and> id_count (get_id s t c) = c + 1
      \<and> id_check (get_id s t c) = (t * (s mod 100000000) * (c + 1)) mod 10)"
proof -
  define d where "d = s mod 100000000"
  define n where "n = c + 1"
  define k where "k = (t * d * n) mod 10"
  have r: "get_id s t c = d * 1000000 + t * 100000 + n * 10 + k"
    by (simp add: get_id_formula d_def n_def k_def)
  have k: "0 \<le> k" "k < 10"
    by (simp_all add: k_def)
  have fields: "id_date (get_id s t c) = d \<and> id_type (get_id s t c) = t
      \<and> id_count (get_id s t c) = n \<and> id_check (get_id s t c) = k"
    if "0 \<le> t" "t \<le> 9" "0 \<le> n" "n \<le> 9999"
    using decimal_fields [OF that k, of d] unfolding r id_date_def id_type_def id_count_def id_check_def
    by simp
  show ?thesis
    using r fields unfolding d_def n_def k_def by blast
qed

theorem get_id_layout_witness:
  "get_id 1700000123 3 41 = 123000000 + 300000 + 420 + 8
   \<and> id_date (get_id 1700000123 3 41) = 123
   \<and> id_type (get_id 1700000123 3 41) = 3
   \<and> id_count (get_id 1700000123 3 41) = 42
   \<and> id_check (get_id 1700000123 3 41) = 8"
  using get_id_layout [of 1700000123 3 41]
  by (simp add: id_date_def id_type_def id_count_def id_check_def)

section \<open>The flush as one list of transport calls\<close>

lemma send_each_flat: "send_each T ch texts w = send_calls T (map (Pair ch) texts) w"
  by (induction texts arbitrary: w) (auto split: prod.splits sum.splits)

lemma send_calls_append:
  "send_calls T (a @ b) w =
     (case send_calls T a w of
        (Inl e, tr, w') \<Rightarrow> (Inl e, tr, w')
      | (Inr u, tr, w') \<Rightarrow> (case send_calls T b w' of (res, tr', w'') \<Rightarrow> (res, tr @ tr', w'')))"
  by (induction a arbitrary: w) (auto split: prod.splits sum.splits)

lemma dump_items_flat: "dump_items T items w = send_calls T (planned T items) w"
proof (induction items arbitrary: w)
  case Nil
  show ?case by (simp add: planned_def)
next
  case (Cons item items)
  obtain ch content_list where item: "item = (ch, content_list)" by (cases item)
  have p: "planned T (item # items) = map (Pair ch) (group_strings T content_list) @ planned T items"
    by (simp add: planned_def item)
  show ?case
    unfolding p send_calls_append
    by (simp add: item send_each_flat Cons.IH split: prod.splits sum.splits)
qed

lemma send_calls_returned: "send_calls T calls w = (Inr u, tr, w') \<Longrightarrow> tr = calls"
  by (induction calls arbitrary: w tr) (auto split: prod.splits sum.splits)

lemma send_calls_raised:
  "send_calls T calls w = (Inl e, tr, w') \<Longrightarrow>
     \<exists>pre ch text post w1. calls = pre @ (ch, text) # post \<and> tr = pre @ [(ch, text)]
        \<and> send_calls T pre w = (Inr (), pre, w1) \<and> send_message T ch text w1 = (Inl e, w')"
proof (induction calls arbitrary: w tr)
  case Nil
  then show ?case by simp
next
  case (Cons c calls)
  obtain ch tx where c: "c = (ch, tx)" by (cases c)
  obtain r0 w0 where s: "send_message T ch tx w = (r0, w0)" by (cases "send_message T ch tx w")
  show ?case
  proof (cases r0)
    case (Inl e0)
    with Cons.prems c s have "tr = [] @ [(ch, tx)]" "e0 = e" "w0 = w'"
      by auto
    with Inl c s show ?thesis
      by (intro exI [of _ "[]"] exI [of _ ch] exI [of _ tx] exI [of _ calls] exI [of _ w]) simp
  next
    case (Inr r)
    obtain res1 tr1 w1 where rest: "send_calls T calls w0 = (res1, tr1, w1)"
      by (cases "send_calls T calls w0")
    with Cons.prems c s Inr have eq: "res1 = Inl e" "tr = (ch, tx) # tr1" "w1 = w'"
      by auto
    from Cons.IH [of w0 tr1] rest eq obtain pre ch' tx' post w2 where
      h: "calls = pre @ (ch', tx') # post" "tr1 = pre @ [(ch', tx')]"
         "send_calls T pre w0 = (Inr (), pre, w2)" "send_message T ch' tx' w2 = (Inl e, w')"
      by blast
    have "send_calls T ((ch, tx) # pre) w = (Inr (), (ch, tx) # pre, w2)"
      using s Inr h(3) by simp
    with h c eq show ?thesis
      by (intro exI [of _ "(ch, tx) # pre"] exI [of _ ch'] exI [of _ tx'] exI [of _ post] exI [of _ w2]) simp
  qed
qed


section \<open>The flush: \<open>dump\<close>\<close>

lemma dump_flat:
  "dump T w s =
     (case send_calls T (planned T (message_buffer s)) w of
        (Inl e, tr, w') \<Rightarrow> (Inl e, tr, w', s)
      | (Inr u, tr, w') \<Rightarrow> (Inr (), tr, w', s\<lparr>current_size := 0, message_buffer := []\<rparr>))"
  by (simp add: dump_def dump_items_flat)


lemma dump_returned:
  assumes "dump T w s = (Inr u, tr, w', s')"
  shows "tr = planned T (message_buffer s) \<and> s' = s\<lparr>current_size := 0, message_buffer := []\<rparr>"
  using assms send_calls_returned [of T "planned T (message_buffer s)" w]
  by (auto simp: dump_flat split: prod.splits sum.splits)

lemma dump_raised:
  assumes "dump T w s = (Inl e, tr, w', s')"
  shows "s' = s \<and> (\<exists>pre ch tx post w1. planned T (message_buffer s) = pre @ (ch, tx) # post
            \<and> tr = pre @ [(ch, tx)] \<and> send_calls T pre w = (Inr (), pre, w1)
            \<and> send_message T ch tx w1 = (Inl e, w'))"
proof -
  from assms have "send_calls T (planned T (message_buffer s)) w = (Inl e, tr, w')" and "s' = s"
    by (auto simp: dump_flat split: prod.splits sum.splits)
  with send_calls_raised [of T "planned T (message_buffer s)" w e tr w'] show ?thesis
    by blast
qed

lemma dump_raise_intro:
  assumes "planned T (message_buffer s) = pre @ (ch, tx) # post"
    and "send_calls T pre w = (Inr (), pre, w1)"
    and "send_message T ch tx w1 = (Inl e, w')"
  shows "dump T w s = (Inl e, pre @ [(ch, tx)], w', s)"
  using assms by (simp add: dump_flat send_calls_append)




text \<open>
  C2, as stated, at two destinations of which the first fails: the example transport
  raises on channel 13, whose entry comes first in the dictionary. \<open>dump\<close> makes that
  one call and no other: the batch of channel 7 is never attempted, and it is still in
  the buffer afterwards.
\<close>

theorem dump_raise_skips_rest_counterexample:
  "dump example_services 0 \<lparr>message_buffer = [(13, [''a'']), (7, [''b''])], current_size = 2\<rparr>
     = (Inl ''Forbidden'', [(13, ''a'')], 1,
        \<lparr>message_buffer = [(13, [''a'']), (7, [''b''])], current_size = 2\<rparr>)
   \<and> sent_to (7::nat) [(13, ''a'')] = []"
  by (simp add: dump_def example_services_def one_batch_def sent_to_def)

text \<open>
  C2 (amended): during a flush the batches are dispatched in the order of the
  dictionary, and a dispatch that raises ends the flush: the calls made are the planned
  calls up to and including the one that raised, every call before it returned, no
  later batch of that or of any other destination is attempted, and the exception of
  that call is what the caller of the flush receives. A flush that returns has made
  every planned call; the values the calls returned are discarded. Conversely, as soon
  as the calls planned before some call have returned and that call raises, the flush
  ends there with that exception and the buffer as it was.
\<close>

theorem dump_stops_at_first_raise:
  "(dump T w s = (res, tr, w', s') \<longrightarrow>
      (\<forall>u. res = Inr u \<longrightarrow> tr = planned T (message_buffer s))
    \<and> (\<forall>e. res = Inl e \<longrightarrow>
          (\<exists>pre ch tx post w1.
             planned T (message_buffer s) = pre @ (ch, tx) # post
           \<and> tr = pre @ [(ch, tx)]
           \<and> send_calls T pre w = (Inr (), pre, w1)
           \<and> send_message T ch tx w1 = (Inl e, w'))))
   \<and> (\<forall>pre ch tx post w1 e w2.
         planned T (message_buffer s) = pre @ (ch, tx) # post
       \<and> send_calls T pre w = (Inr (), pre, w1)
       \<and> send_message T ch tx w1 = (Inl e, w2)
       \<longrightarrow> dump T w s = (Inl e, pre @ [(ch, tx)], w2, s))"
proof (intro conjI impI allI)
  fix u assume "dump T w s = (res, tr, w', s')" "res = Inr u"
  with dump_returned [of T w s u tr w' s'] show "tr = planned T (message_buffer s)"
    by simp
next
  fix e assume "dump T w s = (res, tr, w', s')" "res = Inl e"
  with dump_raised [of T w s e tr w' s']
  show "\<exists>pre ch tx post w1.
             planned T (message_buffer s) = pre @ (ch, tx) # post
           \<and> tr = pre @ [(ch, tx)]
           \<and> send_calls T pre w = (Inr (), pre, w1)
           \<and> send_message T ch tx w1 = (Inl e, w')"
    by blast
next
  fix pre ch tx post w1 e w2
  assume "planned T (message_buffer s) = pre @ (ch, tx) # post
       \<and> send_calls T pre w = (Inr (), pre, w1)
       \<and> send_message T ch tx w1 = (Inl e, w2)"
  then show "dump T w s = (Inl e, pre @ [(ch, tx)], w2, s)"
    using dump_raise_intro [of T s pre ch tx post w w1 e w2] by blast
qed

theorem dump_stops_at_first_raise_witness:
  "dump example_services 0 \<lparr>message_buffer = [(7, [''a'']), (13, [''b'']), (8, [''c''])], current_size = 3\<rparr>
     = (Inl ''Forbidden'', [(7, ''a''), (13, ''b'')], 2,
        \<lparr>message_buffer = [(7, [''a'']), (13, [''b'']), (8, [''c''])], current_size = 3\<rparr>)
   \<and> (\<exists>pre ch tx post w1.
          planned example_services [(7, [''a'']), (13, [''b'']), (8, [''c''])] = pre @ (ch, tx) # post
        \<and> [(7, ''a''), (13, ''b'')] = pre @ [(ch, tx)]
        \<and> send_calls example_services pre 0 = (Inr (), pre, w1)
        \<and> send_message example_services ch tx w1 = (Inl ''Forbidden'', 2))"
proof -
  have d: "dump example_services 0
       \<lparr>message_buffer = [(7, [''a'']), (13, [''b'']), (8, [''c''])], current_size = 3\<rparr>
     = (Inl ''Forbidden'', [(7, ''a''), (13, ''b'')], 2,
        \<lparr>message_buffer = [(7, [''a'']), (13, [''b'']), (8, [''c''])], current_size = 3\<rparr>)"
    by (simp add: dump_def example_services_def one_batch_def)
  from dump_stops_at_first_raise
         [of example_services 0
             "\<lparr>message_buffer = [(7, [''a'']), (13, [''b'']), (8, [''c''])], current_size = 3\<rparr>"
             "Inl ''Forbidden''" "[(7, ''a''), (13, ''b'')]" 2
             "\<lparr>message_buffer = [(7, [''a'']), (13, [''b'']), (8, [''c''])], current_size = 3\<rparr>"]
       d
  show ?thesis
    by simp
qed

text \<open>
  C10: \<open>dump\<close> may be called in any state. On an empty dictionary it makes no
  \<open>send_message\<close> call, returns, and leaves the dictionary empty and the counter 0;
  so after a flush that returned, a second flush with no record call in between makes
  no call at all and changes nothing: the two together dispatch what the first
  dispatched.
\<close>

theorem dump_empty_idempotent:
  "(message_buffer s = [] \<longrightarrow>
      dump T w s = (Inr (), [], w, \<lparr>message_buffer = [], current_size = 0\<rparr>))
   \<and> (\<forall>u tr w1 s1. dump T w s = (Inr u, tr, w1, s1) \<longrightarrow>
         dump T w1 s1 = (Inr (), [], w1, s1)
       \<and> message_buffer s1 = [] \<and> current_size s1 = 0)"
proof (intro conjI impI allI)
  assume "message_buffer s = []"
  then show "dump T w s = (Inr (), [], w, \<lparr>message_buffer = [], current_size = 0\<rparr>)"
    by (cases s) (simp add: dump_def)
next
  fix u tr w1 s1
  assume d: "dump T w s = (Inr u, tr, w1, s1)"
  from dump_returned [OF d] have s1: "message_buffer s1 = []" "current_size s1 = 0"
    by simp_all
  then show "dump T w1 s1 = (Inr (), [], w1, s1)"
    by (cases s1) (simp add: dump_def)
  show "message_buffer s1 = []" "current_size s1 = 0" by (rule s1)+
qed

theorem dump_empty_idempotent_witness:
  "dump example_services 5 MessageBuffer_init = (Inr (), [], 5, MessageBuffer_init)
   \<and> dump example_services 0 \<lparr>message_buffer = [(7, [''a''])], current_size = 1\<rparr>
       = (Inr (), [(7, ''a'')], 1, MessageBuffer_init)
   \<and> dump example_services 1 MessageBuffer_init = (Inr (), [], 1, MessageBuffer_init)"
proof -
  have d: "dump example_services 0 \<lparr>message_buffer = [(7, [''a''])], current_size = 1\<rparr>
       = (Inr (), [(7, ''a'')], 1, MessageBuffer_init)"
    by (simp add: dump_def example_services_def one_batch_def MessageBuffer_init_def)
  from dump_empty_idempotent [of MessageBuffer_init example_services 5]
       dump_empty_idempotent [of "\<lparr>message_buffer = [(7, [''a''])], current_size = 1\<rparr>" example_services 0]
       d
  show ?thesis
    by (simp add: MessageBuffer_init_def)
qed

section \<open>Record calls and the threshold\<close>

lemma exec_flushes:
  "exec D T c w s =
     (if flushes T c s then dump T w (record_only D c s) else (Inr (), [], w, record_only D c s))"
  by (cases c) (auto simp: log_message_def log_system_msg_def Let_def append_lines_def)

lemma setdefault_extend_not_empty: "setdefault_extend k ls d \<noteq> []"
  by (cases d) (auto split: if_splits)

lemma record_only_size:
  "current_size (record_only D c s) = current_size s + (if is_record c then 1 else 0)"
  by (cases c) (simp_all add: append_lines_def)

lemma record_only_not_empty: "is_record c \<Longrightarrow> message_buffer (record_only D c s) \<noteq> []"
  by (cases c) (simp_all add: append_lines_def setdefault_extend_not_empty)

lemma dump_raised_not_empty: "dump T w s = (Inl e, tr, w', s') \<Longrightarrow> message_buffer s \<noteq> []"
  by (auto simp: dump_def split: prod.splits sum.splits)

text \<open>What one call does to the slots: either it completes a flush or it only records.\<close>

lemma exec_cases:
  assumes "exec D T c w s = (res, tr, w', s')"
  shows "(flushes T c s \<and> res = Inr () \<and> tr = planned T (message_buffer (record_only D c s))
            \<and> s' = \<lparr>message_buffer = [], current_size = 0\<rparr>)
       \<or> (flushes T c s \<and> (\<exists>e. res = Inl e) \<and> s' = record_only D c s \<and> message_buffer s' \<noteq> [])
       \<or> (\<not> flushes T c s \<and> res = Inr () \<and> tr = [] \<and> w' = w \<and> s' = record_only D c s
            \<and> message_buffer s' \<noteq> [])"
proof (cases "flushes T c s")
  case True
  with assms have d: "dump T w (record_only D c s) = (res, tr, w', s')"
    by (simp add: exec_flushes)
  show ?thesis
  proof (cases res)
    case (Inl e)
    with d dump_raised [of T w "record_only D c s" e tr w' s'] dump_raised_not_empty [of T w "record_only D c s" e tr w' s']
    show ?thesis using True by auto
  next
    case (Inr u)
    with d dump_returned [of T w "record_only D c s" u tr w' s'] show ?thesis
      using True by (cases "record_only D c s") auto
  qed
next
  case False
  then have "is_record c" by (cases c) auto
  with False assms record_only_not_empty [of c D s] show ?thesis
    by (auto simp: exec_flushes)
qed

lemma run_step:
  "st \<in> set (run D T calls w s) \<Longrightarrow>
     \<exists>w0. exec D T (st_call st) w0 (st_before st) = (st_result st, st_trace st, st_world st, st_after st)"
proof (induction calls arbitrary: w s)
  case Nil
  then show ?case by simp
next
  case (Cons c calls)
  obtain res tr w' s' where e: "exec D T c w s = (res, tr, w', s')"
    by (cases "exec D T c w s") auto
  with Cons.prems have
    "st = \<lparr>st_call = c, st_before = s, st_result = res, st_trace = tr, st_world = w', st_after = s'\<rparr>
       \<or> st \<in> set (run D T calls w' s')"
    by simp
  then show ?case
  proof
    assume "st = \<lparr>st_call = c, st_before = s, st_result = res, st_trace = tr, st_world = w', st_after = s'\<rparr>"
    with e show ?thesis by auto
  next
    assume "st \<in> set (run D T calls w' s')"
    from Cons.IH [OF this] show ?thesis .
  qed
qed

lemma final_state_Cons: "final_state s (st # log) = final_state (st_after st) log"
  by (simp add: final_state_def)

lemma run_quiet:
  "\<forall>c \<in> set calls. is_record c \<Longrightarrow> current_size s + int (length calls) < BUFFER_SIZE T \<Longrightarrow>
     (\<forall>st \<in> set (run D T calls w s). st_trace st = [] \<and> st_result st = Inr () \<and> st_world st = w)
   \<and> current_size (final_state s (run D T calls w s)) = current_size s + int (length calls)"
proof (induction calls arbitrary: s)
  case Nil
  show ?case by (simp add: final_state_def)
next
  case (Cons c calls)
  from Cons.prems have rc: "is_record c" and small: "current_size s + 1 < BUFFER_SIZE T"
    by auto
  then have nf: "\<not> flushes T c s" by (cases c) auto
  have e: "exec D T c w s = (Inr (), [], w, record_only D c s)"
    using nf by (simp add: exec_flushes)
  have sz: "current_size (record_only D c s) = current_size s + 1"
    using rc by (simp add: record_only_size)
  from Cons.prems sz have
    "\<forall>c \<in> set calls. is_record c" "current_size (record_only D c s) + int (length calls) < BUFFER_SIZE T"
    by auto
  from Cons.IH [OF this] e sz show ?case
    by (auto simp: final_state_Cons)
qed

text \<open>The example history, evaluated.\<close>

lemma string_wrap_fits: "length s \<le> w \<Longrightarrow> string_wrap s w = [s]"
  by (simp add: string_wrap.simps)

lemma example_message_lines:
  "format_message example_display example_message = [''12:00 voice-42 ann#0001'', ''> hi'']"
  by (simp add: format_message_def example_display_def example_message_def Let_def
      string_wrap_fits LOG_WRAP_def)

lemma example_raw_line:
  "voicerooms_raw_header example_display (strftime example_display 0)
     (channel_name example_display 42) ''Room closed'' = ''12:00 voice-42 Room closed''"
  by (simp add: example_display_def)

lemma example_history:
  "run example_display example_services example_calls 0 MessageBuffer_init =
     [\<lparr>st_call = Log_message 7 example_message,
       st_before = \<lparr>message_buffer = [], current_size = 0\<rparr>,
       st_result = Inr (), st_trace = [], st_world = 0,
       st_after = \<lparr>message_buffer = [(7, [''12:00 voice-42 ann#0001'', ''> hi''])],
                   current_size = 1\<rparr>\<rparr>,
      \<lparr>st_call = Log_system_msg 0 8 42 ''Room closed'',
       st_before = \<lparr>message_buffer = [(7, [''12:00 voice-42 ann#0001'', ''> hi''])],
                    current_size = 1\<rparr>,
       st_result = Inr (), st_trace = [], st_world = 0,
       st_after = \<lparr>message_buffer = [(7, [''12:00 voice-42 ann#0001'', ''> hi'']),
                                     (8, [''12:00 voice-42 Room closed''])],
                   current_size = 2\<rparr>\<rparr>,
      \<lparr>st_call = Log_message 7 example_message,
       st_before = \<lparr>message_buffer = [(7, [''12:00 voice-42 ann#0001'', ''> hi'']),
                                      (8, [''12:00 voice-42 Room closed''])],
                    current_size = 2\<rparr>,
       st_result = Inr (),
       st_trace = [(7, ''12:00 voice-42 ann#0001\<newline>> hi\<newline>12:00 voice-42 ann#0001\<newline>> hi''),
                   (8, ''12:00 voice-42 Room closed'')],
       st_world = 2,
       st_after = \<lparr>message_buffer = [], current_size = 0\<rparr>\<rparr>]"
  by (simp add: example_calls_def log_message_def log_system_msg_def example_message_lines
      example_raw_line append_lines_def MessageBuffer_init_def Let_def dump_def one_batch_def
      example_services_def)

text \<open>
  C3: in every history of calls, a record call (\<open>log_message\<close> or
  \<open>log_system_msg\<close>) that leaves the pending count below \<open>BUFFER_SIZE\<close> makes no
  \<open>send_message\<close> call: it only appends and counts. A record call whose increment
  brings the count to the threshold or beyond runs \<open>dump\<close> on the slots it has
  just updated before it returns: its result, its dispatches and the slots it leaves
  are those of that flush. In particular fewer than \<open>BUFFER_SIZE\<close> record calls on
  a new buffer dispatch nothing.
\<close>

theorem record_dispatches_only_at_threshold:
  "(\<forall>st \<in> set (run D T calls w s). is_record (st_call st) \<longrightarrow>
      (if current_size (st_before st) + 1 < BUFFER_SIZE T
       then st_trace st = [] \<and> st_result st = Inr ()
          \<and> st_after st = record_only D (st_call st) (st_before st)
       else \<exists>w0. (st_result st, st_trace st, st_world st, st_after st)
                    = dump T w0 (record_only D (st_call st) (st_before st))))
   \<and> ((\<forall>c \<in> set calls. is_record c) \<and> int (length calls) < BUFFER_SIZE T \<longrightarrow>
        concat (map st_trace (run D T calls w MessageBuffer_init)) = []
      \<and> current_size (final_state MessageBuffer_init (run D T calls w MessageBuffer_init))
          = int (length calls))"
proof (intro conjI ballI impI)
  fix st
  assume st: "st \<in> set (run D T calls w s)" and rc: "is_record (st_call st)"
  from run_step [OF st] obtain w0 where
    e: "exec D T (st_call st) w0 (st_before st) = (st_result st, st_trace st, st_world st, st_after st)" ..
  from rc have fl: "flushes T (st_call st) (st_before st) \<longleftrightarrow> \<not> current_size (st_before st) + 1 < BUFFER_SIZE T"
    by (cases "st_call st") auto
  show "if current_size (st_before st) + 1 < BUFFER_SIZE T
       then st_trace st = [] \<and> st_result st = Inr ()
          \<and> st_after st = record_only D (st_call st) (st_before st)
       else \<exists>w0. (st_result st, st_trace st, st_world st, st_after st)
                    = dump T w0 (record_only D (st_call st) (st_before st))"
  proof (cases "current_size (st_before st) + 1 < BUFFER_SIZE T")
    case True
    with e fl show ?thesis by (simp add: exec_flushes)
  next
    case False
    with e fl have "(st_result st, st_trace st, st_world st, st_after st)
                    = dump T w0 (record_only D (st_call st) (st_before st))"
      by (simp add: exec_flushes)
    with False show ?thesis by auto
  qed
next
  assume a: "(\<forall>c \<in> set calls. is_record c) \<and> int (length calls) < BUFFER_SIZE T"
  then have "\<forall>c \<in> set calls. is_record c"
    "current_size (MessageBuffer_init :: 'a buffer_state) + int (length calls) < BUFFER_SIZE T"
    by (simp_all add: MessageBuffer_init_def)
  from run_quiet [OF this, of D w]
  show "concat (map st_trace (run D T calls w MessageBuffer_init)) = []"
    and "current_size (final_state MessageBuffer_init (run D T calls w MessageBuffer_init)) = int (length calls)"
    by (simp_all add: MessageBuffer_init_def)
qed

theorem record_dispatches_only_at_threshold_witness:
  "map st_trace (run example_display example_services example_calls 0 MessageBuffer_init)
     = [[], [], [(7, ''12:00 voice-42 ann#0001\<newline>> hi\<newline>12:00 voice-42 ann#0001\<newline>> hi''),
                 (8, ''12:00 voice-42 Room closed'')]]
   \<and> concat (map st_trace (run example_display example_services (take 2 example_calls) 0 MessageBuffer_init)) = []
   \<and> current_size (final_state MessageBuffer_init
        (run example_display example_services (take 2 example_calls) 0 MessageBuffer_init)) = 2"
  using record_dispatches_only_at_threshold
          [of example_display example_services example_calls 0 MessageBuffer_init]
        record_dispatches_only_at_threshold
          [of example_display example_services "take 2 example_calls" 0 MessageBuffer_init]
  by (simp add: example_history) (simp add: example_calls_def example_services_def)

section \<open>The pending count\<close>

lemma exec_count:
  assumes "exec D T c w s = (res, tr, w', s')"
  shows "current_size s' =
    count_step (current_size s)
      \<lparr>st_call = c, st_before = s, st_result = res, st_trace = tr, st_world = w', st_after = s'\<rparr>"
  using exec_cases [OF assms] by (auto simp: record_only_size)

lemma exec_size:
  assumes "exec D T c w s = (res, tr, w', s')"
  shows "current_size s' = current_size s + (if is_record c then 1 else 0)
       \<or> (flushes T c s \<and> res = Inr () \<and> s' = \<lparr>message_buffer = [], current_size = 0\<rparr>)"
  using exec_cases [OF assms] by (auto simp: record_only_size)

lemma exec_cleared:
  assumes "exec D T c w s = (res, tr, w', s')"
  shows "message_buffer s' = [] \<longleftrightarrow> flushes T c s \<and> res = Inr ()"
  using exec_cases [OF assms] by auto

lemma run_count:
  "foldl count_step (current_size s) (run D T calls w s)
     = current_size (final_state s (run D T calls w s))"
proof (induction calls arbitrary: w s)
  case Nil
  show ?case by (simp add: final_state_def)
next
  case (Cons c calls)
  obtain res tr w' s' where e: "exec D T c w s = (res, tr, w', s')"
    by (cases "exec D T c w s") auto
  from exec_count [OF e] Cons.IH [of s' w'] e show ?case
    by (simp add: final_state_Cons del: count_step.simps)
qed

lemma run_nonneg:
  "0 \<le> current_size s \<Longrightarrow>
     \<forall>st \<in> set (run D T calls w s). 0 \<le> current_size (st_before st) \<and> 0 \<le> current_size (st_after st)"
proof (induction calls arbitrary: w s)
  case Nil
  show ?case by simp
next
  case (Cons c calls)
  obtain res tr w' s' where e: "exec D T c w s = (res, tr, w', s')"
    by (cases "exec D T c w s") auto
  from exec_size [OF e] Cons.prems have "0 \<le> current_size s'"
    by (auto split: if_splits)
  from Cons.IH [OF this, of w'] Cons.prems e \<open>0 \<le> current_size s'\<close> show ?case
    by simp
qed

text \<open>
  C4: in every history of calls on a new buffer, \<open>current_size\<close> equals the number
  of record calls (\<open>log_message\<close> and \<open>log_system_msg\<close>) made since the buffer was
  last cleared, one per call whatever the number of lines the call appended; it is
  never negative; and a call leaves the dictionary empty exactly when it ran a flush
  that returned. Each call either adds to the counter 1 (a record call) or 0
  (\<open>dump\<close>), or it ran a flush to its end, which is the only place where the
  counter goes back to 0.
\<close>

theorem pending_count_counts_record_calls:
  "current_size (final_state MessageBuffer_init (run D T calls w MessageBuffer_init))
     = records_since_clear (run D T calls w MessageBuffer_init)
   \<and> (\<forall>st \<in> set (run D T calls w MessageBuffer_init).
         0 \<le> current_size (st_after st)
       \<and> (message_buffer (st_after st) = []
            \<longleftrightarrow> flushes T (st_call st) (st_before st) \<and> st_result st = Inr ())
       \<and> (current_size (st_after st)
            = current_size (st_before st) + (if is_record (st_call st) then 1 else 0)
          \<or> (flushes T (st_call st) (st_before st) \<and> st_result st = Inr ()
               \<and> st_after st = \<lparr>message_buffer = [], current_size = 0\<rparr>)))"
proof (intro conjI ballI)
  show "current_size (final_state MessageBuffer_init (run D T calls w MessageBuffer_init))
     = records_since_clear (run D T calls w MessageBuffer_init)"
    using run_count [of MessageBuffer_init D T calls w]
    by (simp add: records_since_clear_def MessageBuffer_init_def del: count_step.simps)
next
  fix st assume st: "st \<in> set (run D T calls w MessageBuffer_init)"
  have "0 \<le> current_size (MessageBuffer_init :: 'a buffer_state)"
    by (simp add: MessageBuffer_init_def)
  from run_nonneg [OF this, of D T calls w] st show "0 \<le> current_size (st_after st)"
    by blast
  from run_step [OF st] obtain w0 where
    "exec D T (st_call st) w0 (st_before st) = (st_result st, st_trace st, st_world st, st_after st)" ..
  note e = this
  from exec_cleared [OF e]
  show "message_buffer (st_after st) = []
            \<longleftrightarrow> flushes T (st_call st) (st_before st) \<and> st_result st = Inr ()" .
  from exec_size [OF e]
  show "current_size (st_after st)
            = current_size (st_before st) + (if is_record (st_call st) then 1 else 0)
          \<or> (flushes T (st_call st) (st_before st) \<and> st_result st = Inr ()
               \<and> st_after st = \<lparr>message_buffer = [], current_size = 0\<rparr>)" .
qed

theorem pending_count_counts_record_calls_witness:
  "current_size (final_state MessageBuffer_init
      (run example_display example_services (take 2 example_calls) 0 MessageBuffer_init)) = 2
   \<and> records_since_clear
      (run example_display example_services (take 2 example_calls) 0 MessageBuffer_init) = 2
   \<and> length (entry 7 (final_state MessageBuffer_init
      (run example_display example_services (take 1 example_calls) 0 MessageBuffer_init))) = 2
   \<and> current_size (final_state MessageBuffer_init
      (run example_display example_services (take 1 example_calls) 0 MessageBuffer_init)) = 1
   \<and> current_size (final_state MessageBuffer_init
      (run example_display example_services example_calls 0 MessageBuffer_init)) = 0
   \<and> records_since_clear
      (run example_display example_services example_calls 0 MessageBuffer_init) = 0"
  using pending_count_counts_record_calls
          [of example_display example_services "take 2 example_calls" 0]
        pending_count_counts_record_calls
          [of example_display example_services "take 1 example_calls" 0]
        pending_count_counts_record_calls
          [of example_display example_services example_calls 0]
  apply (simp add: example_history final_state_def records_since_clear_def)
  apply (simp add: example_calls_def log_message_def log_system_msg_def example_message_lines
      example_raw_line append_lines_def MessageBuffer_init_def Let_def example_services_def entry_def)
  done

section \<open>Order of the lines of a destination\<close>























section \<open>Formatting a chat message\<close>

lemma string_wrap_two:
  assumes "w < length s" "length s \<le> 2 * w"
  shows "string_wrap s w = [take w s, drop w s]"
proof -
  from assms have "0 < w" by auto
  with assms have "string_wrap s w = take w s # string_wrap (drop w s) w"
    by (subst string_wrap.simps) simp
  moreover from assms have "string_wrap (drop w s) w = [drop w s]"
    by (intro string_wrap_fits) simp
  ultimately show ?thesis by simp
qed

lemma concat_string_wrap: "concat (string_wrap s w) = s"
proof (induction s w rule: string_wrap.induct)
  case (1 s w)
  show ?case
  proof (cases "length s \<le> w \<or> w = 0")
    case True
    then show ?thesis by (subst string_wrap.simps) simp
  next
    case False
    with "1" have "concat (string_wrap (drop w s) w) = drop w s" by simp
    with False show ?thesis by (subst string_wrap.simps) simp
  qed
qed

lemma string_wrap_chunks:
  "0 < w \<Longrightarrow> chunk \<in> set (string_wrap s w) \<Longrightarrow> length chunk \<le> w"
proof (induction s w rule: string_wrap.induct)
  case (1 s w)
  show ?case
  proof (cases "length s \<le> w \<or> w = 0")
    case True
    with "1.prems" show ?thesis by (subst (asm) string_wrap.simps) auto
  next
    case False
    with "1.prems" have "chunk = take w s \<or> chunk \<in> set (string_wrap (drop w s) w)"
      by (subst (asm) string_wrap.simps) auto
    with "1.IH" [OF False] "1.prems"(1) show ?thesis by auto
  qed
qed

lemma example_escape_plain:
  "CHR ''*'' \<notin> set s \<Longrightarrow> CHR ''_'' \<notin> set s \<Longrightarrow> escape_formatting example_display s = s"
  by (induction s) (auto simp: example_display_def)

lemma long_message_quoted:
  "quotify example_display (escape_formatting example_display (clean_content long_message))
     = ''> '' @ replicate 2997 CHR ''x''"
  by (simp add: long_message_def example_escape_plain) (simp add: example_display_def)

text \<open>
  C6, as stated, at a tail template that marks the chunk: with the template
  \<open>| \<close> followed by the chunk, the message whose quoted, escaped content has
  \<open>2 * 1500 - 1 = 2999\<close> characters is formatted into the header and two tail lines,
  and the first tail line has length 1502, not 1500: the tail lines are not the chunks
  themselves.
\<close>

theorem marked_tail_line_counterexample:
  "length (quotify marked_display (escape_formatting marked_display (clean_content long_message)))
     = 2 * 1500 - 1
   \<and> format_message marked_display long_message
       = [''12:00 voice-42 ann#0001'', ''| > '' @ replicate 1498 CHR ''x'',
          ''| '' @ replicate 1499 CHR ''x'']
   \<and> length (format_message marked_display long_message ! 1) = 1502"
proof -
  have q: "quotify marked_display (escape_formatting marked_display (clean_content long_message))
     = ''> '' @ replicate 2997 CHR ''x''"
    using long_message_quoted by (simp add: marked_display_def)
  have h: "voicerooms_log_header marked_display (strftime marked_display 0)
      (channel_name marked_display 42) (escape_formatting marked_display ''ann'') ''0001'' 5
    = ''12:00 voice-42 ann#0001''"
    by (simp add: marked_display_def example_display_def)
  have f: "format_message marked_display long_message
       = [''12:00 voice-42 ann#0001'', ''| > '' @ replicate 1498 CHR ''x'',
          ''| '' @ replicate 1499 CHR ''x'']"
    using q h
    by (simp add: format_message_def Let_def LOG_WRAP_def string_wrap_two long_message_def
        example_message_def)
       (simp add: marked_display_def)
  show ?thesis
    unfolding f q by simp
qed

text \<open>
  C6 (amended): \<open>format_message\<close> returns the header line first, then one line listing
  the escaped file names when the message has attachments, then, when its \<open>content\<close>
  is not empty, one tail line per chunk of the wrapped text: each tail line is the tail
  template applied to one chunk of \<open>string_wrap\<close> at width 1500 of the quoted, escaped
  \<open>clean_content\<close> (discord's rendering of the content), escaped first, then quoted,
  then wrapped. A message with neither attachments nor content gives the header line
  alone. The chunks are at most 1500 long and concatenate to the quoted text. A quoted
  text shorter than 1500 gives exactly one tail line, and one of length
  \<open>2 * 1500 - 1\<close> gives exactly two, made from a chunk of length 1500 and one of
  length 1499; the first tail line itself has length 1500 when the template keeps the
  length of its argument.
\<close>

theorem format_message_lines:
  "(let header = voicerooms_log_header D (strftime D (created_at m)) (channel_name D (channel m))
                   (escape_formatting D (author_name m)) (author_discriminator m) (author_id m);
        files = (if attachments m = [] then []
                 else [voicerooms_log_attachments D
                         (join '', '' (map (escape_formatting D) (attachments m)))]);
        quoted = quotify D (escape_formatting D (clean_content m));
        chunks = string_wrap quoted 1500
    in format_message D m
         = header # files @ (if content m = [] then [] else map (voicerooms_log_tail D) chunks)
     \<and> (attachments m = [] \<and> content m = [] \<longrightarrow> format_message D m = [header])
     \<and> concat chunks = quoted
     \<and> (\<forall>chunk \<in> set chunks. length chunk \<le> 1500)
     \<and> (content m \<noteq> [] \<and> length quoted < 1500 \<longrightarrow>
            format_message D m = header # files @ [voicerooms_log_tail D quoted])
     \<and> (content m \<noteq> [] \<and> length quoted = 2 * 1500 - 1 \<longrightarrow>
            format_message D m
              = header # files @ [voicerooms_log_tail D (take 1500 quoted),
                                  voicerooms_log_tail D (drop 1500 quoted)]
          \<and> length (take 1500 quoted) = 1500
          \<and> length (drop 1500 quoted) = 1499
          \<and> ((\<forall>s. length (voicerooms_log_tail D s) = length s) \<longrightarrow>
                 length (format_message D m ! (1 + length files)) = 1500)))"
proof -
  define quoted where "quoted = quotify D (escape_formatting D (clean_content m))"
  have a: "concat (string_wrap quoted 1500) = quoted"
    by (rule concat_string_wrap)
  have b: "\<forall>chunk \<in> set (string_wrap quoted 1500). length chunk \<le> 1500"
    using string_wrap_chunks [of 1500 _ quoted] by simp
  have c: "length quoted < 1500 \<longrightarrow> string_wrap quoted 1500 = [quoted]"
    by (simp add: string_wrap_fits)
  have d: "length quoted = 2 * 1500 - 1 \<longrightarrow>
      string_wrap quoted 1500 = [take 1500 quoted, drop 1500 quoted] \<and> length (take 1500 quoted) = 1500"
    using string_wrap_two [of 1500 quoted] by simp
  show ?thesis
    using a b c d unfolding quoted_def
    by (simp add: format_message_def Let_def LOG_WRAP_def nth_append)
qed


theorem format_message_lines_witness:
  "format_message example_display example_message = [''12:00 voice-42 ann#0001'', ''> hi'']
   \<and> format_message example_display (example_message\<lparr>content := [], clean_content := []\<rparr>)
       = [''12:00 voice-42 ann#0001'']
   \<and> format_message example_display long_message
       = [''12:00 voice-42 ann#0001'', ''> '' @ replicate 1498 CHR ''x'', replicate 1499 CHR ''x'']
   \<and> length (format_message example_display long_message ! 1) = 1500
   \<and> format_message example_display file_message
       = [''12:00 voice-42 ann#0001'', ''Files: a'' @ [CHR 0x5C] @ ''_b.png, c.txt'']"
proof -
  have h: "voicerooms_log_header example_display (strftime example_display 0)
      (channel_name example_display 42) (escape_formatting example_display ''ann'') ''0001'' 5
    = ''12:00 voice-42 ann#0001''"
    by (simp add: example_display_def)
  have t: "voicerooms_log_tail example_display = (\<lambda>s. s)"
    by (simp add: example_display_def)
  have q: "quotify example_display (escape_formatting example_display ''hi'') = ''> hi''"
    by (simp add: example_display_def)
  from format_message_lines [of example_display example_message] h t q
  have 1: "format_message example_display example_message = [''12:00 voice-42 ann#0001'', ''> hi'']"
    by (simp add: Let_def example_message_def string_wrap_fits)
  from format_message_lines [of example_display "example_message\<lparr>content := [], clean_content := []\<rparr>"] h
  have 2: "format_message example_display (example_message\<lparr>content := [], clean_content := []\<rparr>)
       = [''12:00 voice-42 ann#0001'']"
    by (simp add: Let_def example_message_def)
  from format_message_lines [of example_display long_message] h t long_message_quoted
  have 3: "format_message example_display long_message
       = [''12:00 voice-42 ann#0001'', ''> '' @ replicate 1498 CHR ''x'', replicate 1499 CHR ''x'']"
    by (simp add: Let_def long_message_def example_message_def string_wrap_two)
  from format_message_lines [of example_display file_message] h
  have 4: "format_message example_display file_message
       = [''12:00 voice-42 ann#0001'', ''Files: a'' @ [CHR 0x5C] @ ''_b.png, c.txt'']"
    by (simp add: Let_def file_message_def example_message_def) (simp add: example_display_def)
  from 1 2 3 4 show ?thesis by simp
qed

section \<open>The threshold at construction\<close>

text \<open>
  C7, as stated, at the threshold 0: the constructor has produced the buffer
  \<open>MessageBuffer_init\<close> all the same, and the buffer is usable: \<open>log_message\<close> on
  it returns, having dispatched the two lines of the message to channel 7.
\<close>

theorem nonpositive_threshold_counterexample:
  "BUFFER_SIZE (example_services\<lparr>BUFFER_SIZE := 0\<rparr>) \<le> 0
   \<and> log_message example_display (example_services\<lparr>BUFFER_SIZE := 0\<rparr>) 7 example_message 0
         MessageBuffer_init
       = (Inr (), [(7, ''12:00 voice-42 ann#0001\<newline>> hi'')], 1, MessageBuffer_init)"
  by (simp add: log_message_def example_message_lines append_lines_def MessageBuffer_init_def
      Let_def dump_def one_batch_def example_services_def)

text \<open>
  C7 (amended): constructing a buffer does not read the threshold and cannot fail:
  \<open>__init__\<close> only sets the dictionary to empty and the counter to 0, which is
  \<open>MessageBuffer_init\<close> whatever \<open>BUFFER_SIZE\<close> is. With a non-positive threshold
  the buffer works, and every call on it flushes: each record call appends its lines and
  runs \<open>dump\<close> at once.
\<close>

theorem nonpositive_threshold_flushes_every_call:
  "BUFFER_SIZE T \<le> 0 \<Longrightarrow>
     \<forall>st \<in> set (run D T calls w MessageBuffer_init).
        flushes T (st_call st) (st_before st)
      \<and> (\<exists>w0. (st_result st, st_trace st, st_world st, st_after st)
                  = dump T w0 (record_only D (st_call st) (st_before st)))"
proof
  fix st assume b: "BUFFER_SIZE T \<le> 0" and st: "st \<in> set (run D T calls w MessageBuffer_init)"
  have "0 \<le> current_size (MessageBuffer_init :: 'a buffer_state)"
    by (simp add: MessageBuffer_init_def)
  from run_nonneg [OF this, of D T calls w] st have "0 \<le> current_size (st_before st)"
    by blast
  with b have f: "flushes T (st_call st) (st_before st)"
    by (cases "st_call st") auto
  from run_step [OF st] obtain w0 where
    "exec D T (st_call st) w0 (st_before st) = (st_result st, st_trace st, st_world st, st_after st)" ..
  with f have "(st_result st, st_trace st, st_world st, st_after st)
                  = dump T w0 (record_only D (st_call st) (st_before st))"
    by (simp add: exec_flushes)
  with f show "flushes T (st_call st) (st_before st)
      \<and> (\<exists>w0. (st_result st, st_trace st, st_world st, st_after st)
                  = dump T w0 (record_only D (st_call st) (st_before st)))"
    by blast
qed

theorem nonpositive_threshold_flushes_every_call_witness:
  "BUFFER_SIZE (example_services\<lparr>BUFFER_SIZE := - 1\<rparr>) \<le> 0
   \<and> map st_trace (run example_display (example_services\<lparr>BUFFER_SIZE := - 1\<rparr>)
        (take 2 example_calls) 0 MessageBuffer_init)
     = [[(7, ''12:00 voice-42 ann#0001\<newline>> hi'')], [(8, ''12:00 voice-42 Room closed'')]]
   \<and> map st_after (run example_display (example_services\<lparr>BUFFER_SIZE := - 1\<rparr>)
        (take 2 example_calls) 0 MessageBuffer_init)
     = [MessageBuffer_init, MessageBuffer_init]"
proof -
  have b: "BUFFER_SIZE (example_services\<lparr>BUFFER_SIZE := - 1\<rparr>) \<le> 0"
    by simp
  from nonpositive_threshold_flushes_every_call
         [OF b, of example_display "take 2 example_calls" 0]
  show ?thesis
    by (simp add: example_calls_def log_message_def log_system_msg_def example_message_lines
      example_raw_line append_lines_def MessageBuffer_init_def Let_def dump_def one_batch_def
      example_services_def)
qed

end
